theory Spec2Isabelle
  imports Main
begin

section \<open>Console output\<close>

text \<open>
  Both programs write to \<^verbatim>\<open>std::cout\<close>. The stream is modelled as the text written so
  far; every printing function takes it and returns it extended.
\<close>

type_synonym ostream = string

text \<open>
  \<^verbatim>\<open>operator<<\<close> for \<^verbatim>\<open>size_t\<close> and \<^verbatim>\<open>int\<close>: decimal digits, a minus sign for a negative
  value.
\<close>

definition digit_char :: "nat \<Rightarrow> char" where
  "digit_char d = ''0123456789'' ! d"

fun show_nat :: "nat \<Rightarrow> string" where
  "show_nat n = (if n < 10 then [digit_char n] else show_nat (n div 10) @ [digit_char (n mod 10)])"

declare show_nat.simps [simp del]

definition show_int :: "int \<Rightarrow> string" where
  "show_int i = (if i < 0 then ''-'' @ show_nat (nat (- i)) else show_nat (nat i))"

section \<open>Flyweight (Structural/Flyweight/main.cpp)\<close>

subsection \<open>SharedState, UniqueState and Flyweight\<close>

text \<open>
  \<^verbatim>\<open>struct SharedState { std::string brand_, model_, color_; }\<close> and
  \<^verbatim>\<open>struct UniqueState { std::string owner_, plates_; }\<close>. The trailing underscore of the
  member names is dropped here and below, since a HOL name cannot end with one.
\<close>

record SharedState =
  brand :: string
  model :: string
  color :: string

record UniqueState =
  owner :: string
  plates :: string

definition show_SharedState :: "SharedState \<Rightarrow> string" where
  "show_SharedState ss = ''[ '' @ brand ss @ '', '' @ model ss @ '', '' @ color ss @ '' ]''"

definition show_UniqueState :: "UniqueState \<Rightarrow> string" where
  "show_UniqueState us = ''[ '' @ owner us @ '', '' @ plates us @ '' ]''"

text \<open>
  A \<^verbatim>\<open>Flyweight\<close> owns a heap copy of a SharedState. Its constructor and its copy
  constructor both allocate a new copy (\<^verbatim>\<open>new SharedState(*shared_state)\<close>), so a
  Flyweight behaves as a value holding the SharedState.
\<close>

record Flyweight =
  shared_state :: SharedState

definition Flyweight_ctor :: "SharedState \<Rightarrow> Flyweight" where
  "Flyweight_ctor ss = \<lparr>shared_state = ss\<rparr>"

definition Operation :: "UniqueState \<Rightarrow> Flyweight \<Rightarrow> ostream \<Rightarrow> ostream" where
  "Operation unique_state fw out =
     out @ ''Flyweight: Displaying shared ('' @ show_SharedState (shared_state fw)
         @ '') and unique ('' @ show_UniqueState unique_state @ '') state.\<newline>''"

subsection \<open>The container \<^verbatim>\<open>std::unordered_map<std::string, Flyweight>\<close>\<close>

text \<open>
  The hash map is modelled by the list of its (key, value) pairs. \<^verbatim>\<open>find\<close> looks a key
  up, \<^verbatim>\<open>insert\<close> adds a pair only when the key is not present yet (it never overwrites),
  \<^verbatim>\<open>at\<close> throws \<^verbatim>\<open>std::out_of_range\<close> for a missing key and \<^verbatim>\<open>size\<close> counts the pairs.
  The position of a pair in the list has no meaning (the iteration order of the hash map
  is unspecified), and nothing below depends on it; for the same reason the listing loop
  of \<^verbatim>\<open>ListFlyweights\<close> is not modelled, only the size it reads.
\<close>

datatype exception = out_of_range

type_synonym unordered_map = "(string \<times> Flyweight) list"

definition um_find :: "string \<Rightarrow> unordered_map \<Rightarrow> Flyweight option" where
  "um_find k m = map_of m k"

definition um_insert :: "string \<times> Flyweight \<Rightarrow> unordered_map \<Rightarrow> unordered_map" where
  "um_insert kv m = (if um_find (fst kv) m = None then m @ [kv] else m)"

definition um_at :: "string \<Rightarrow> unordered_map \<Rightarrow> exception + Flyweight" where
  "um_at k m = (case um_find k m of None \<Rightarrow> Inl out_of_range | Some fw \<Rightarrow> Inr fw)"

definition um_size :: "unordered_map \<Rightarrow> nat" where
  "um_size m = length m"

subsection \<open>FlyweightFactory\<close>

record FlyweightFactory =
  flyweights :: unordered_map

text \<open>\<^verbatim>\<open>return ss.brand_ + "_" + ss.model_ + "_" + ss.color_;\<close>\<close>

definition GetKey :: "SharedState \<Rightarrow> string" where
  "GetKey ss = brand ss @ ''_'' @ model ss @ ''_'' @ color ss"

text \<open>
  The constructor inserts one Flyweight per element of the initializer list, in order,
  under the element's key. \<open>populate\<close> is its loop, from any registry.
\<close>

definition populate :: "SharedState list \<Rightarrow> FlyweightFactory \<Rightarrow> FlyweightFactory" where
  "populate shared_states f0 =
     fold (\<lambda>ss f. f\<lparr>flyweights := um_insert (GetKey ss, Flyweight_ctor ss) (flyweights f)\<rparr>)
          shared_states f0"

definition FlyweightFactory_ctor :: "SharedState list \<Rightarrow> FlyweightFactory" where
  "FlyweightFactory_ctor shared_states = populate shared_states \<lparr>flyweights = []\<rparr>"

text \<open>
  \<^verbatim>\<open>GetFlyweight\<close> prints which path it took, inserts on a miss, and returns a copy of
  \<^verbatim>\<open>flyweights_.at(key)\<close>; the exception of \<^verbatim>\<open>at\<close> is a branch of the model.
\<close>

fun GetFlyweight ::
  "SharedState \<Rightarrow> FlyweightFactory \<times> ostream \<Rightarrow> exception + (Flyweight \<times> FlyweightFactory \<times> ostream)"
where
  "GetFlyweight ss (f, out) =
     (let key = GetKey ss;
          (f', out') =
            (if um_find key (flyweights f) = None
             then (f\<lparr>flyweights := um_insert (key, Flyweight_ctor ss) (flyweights f)\<rparr>,
                   out @ ''FlyweightFactory: Can't find a flyweight, creating a new one.\<newline>'')
             else (f, out @ ''FlyweightFactory: Reusing existing flyweight.\<newline>''))
      in case um_at key (flyweights f') of
           Inl e \<Rightarrow> Inl e
         | Inr fw \<Rightarrow> Inr (fw, f', out'))"

text \<open>
  The number of stored flyweights, as \<^verbatim>\<open>ListFlyweights\<close> reads it
  (\<^verbatim>\<open>size_t count = this->flyweights_.size()\<close>).
\<close>

definition count :: "FlyweightFactory \<Rightarrow> nat" where
  "count f = um_size (flyweights f)"

text \<open>A sequence of \<^verbatim>\<open>GetFlyweight\<close> calls; an exception ends the run.\<close>

fun GetFlyweights ::
  "SharedState list \<Rightarrow> FlyweightFactory \<times> ostream \<Rightarrow> exception + (FlyweightFactory \<times> ostream)"
where
  "GetFlyweights [] st = Inr st"
| "GetFlyweights (ss # rest) st =
     (case GetFlyweight ss st of
        Inl e \<Rightarrow> Inl e
      | Inr (fw, st') \<Rightarrow> GetFlyweights rest st')"

text \<open>The client routine: the parameters are in the order of the source.\<close>

fun AddCarToPoliceDatabase ::
  "string \<Rightarrow> string \<Rightarrow> string \<Rightarrow> string \<Rightarrow> string \<Rightarrow> FlyweightFactory \<times> ostream
     \<Rightarrow> exception + (FlyweightFactory \<times> ostream)"
where
  "AddCarToPoliceDatabase plates' owner' brand' model' color' (ff, out) =
     (case GetFlyweight \<lparr>brand = brand', model = model', color = color'\<rparr>
             (ff, out @ ''\<newline>Client: Adding a car to database.\<newline>'') of
        Inl e \<Rightarrow> Inl e
      | Inr (flyweight, ff', out') \<Rightarrow>
          Inr (ff', Operation \<lparr>owner = owner', plates = plates'\<rparr> flyweight out'))"

subsection \<open>Names for the statements about the registry\<close>

definition created_line :: string where
  "created_line = ''FlyweightFactory: Can't find a flyweight, creating a new one.\<newline>''"

definition reused_line :: string where
  "reused_line = ''FlyweightFactory: Reusing existing flyweight.\<newline>''"

text \<open>Every entry is stored under the key of the state its flyweight holds.\<close>

definition key_consistent :: "FlyweightFactory \<Rightarrow> bool" where
  "key_consistent f = list_all (\<lambda>(k, fw). k = GetKey (shared_state fw)) (flyweights f)"

definition bmw_m5_red :: SharedState where
  "bmw_m5_red = \<lparr>brand = ''BMW'', model = ''M5'', color = ''red''\<rparr>"

definition bmw_x1_red :: SharedState where
  "bmw_x1_red = \<lparr>brand = ''BMW'', model = ''X1'', color = ''red''\<rparr>"

definition factory_1 :: FlyweightFactory where
  "factory_1 = \<lparr>flyweights = [(''BMW_M5_red'', \<lparr>shared_state = bmw_m5_red\<rparr>)]\<rparr>"

definition factory_2 :: FlyweightFactory where
  "factory_2 = \<lparr>flyweights = [(''BMW_M5_red'', \<lparr>shared_state = bmw_m5_red\<rparr>),
                              (''BMW_X1_red'', \<lparr>shared_state = bmw_x1_red\<rparr>)]\<rparr>"

text \<open>Two states that differ in two fields and have the same key.\<close>

definition mercedes_a :: SharedState where
  "mercedes_a = \<lparr>brand = ''Mercedes_Benz'', model = ''C300'', color = ''black''\<rparr>"

definition mercedes_b :: SharedState where
  "mercedes_b = \<lparr>brand = ''Mercedes'', model = ''Benz_C300'', color = ''black''\<rparr>"

definition factory_mercedes :: FlyweightFactory where
  "factory_mercedes =
     \<lparr>flyweights = [(''Mercedes_Benz_C300_black'', \<lparr>shared_state = mercedes_a\<rparr>)]\<rparr>"

text \<open>The registry that \<^verbatim>\<open>main\<close> constructs.\<close>

definition main_factory :: FlyweightFactory where
  "main_factory = FlyweightFactory_ctor
     [\<lparr>brand = ''Chevrolet'', model = ''Camaro'', color = ''pink''\<rparr>,
      \<lparr>brand = ''Mercedes Benz'', model = ''C300'', color = ''black''\<rparr>,
      \<lparr>brand = ''Mercedes Benz'', model = ''C500'', color = ''red''\<rparr>,
      \<lparr>brand = ''BMW'', model = ''M5'', color = ''red''\<rparr>,
      \<lparr>brand = ''BMW'', model = ''X6'', color = ''white''\<rparr>]"

section \<open>Observer (Behavioral/Observer/main.cpp)\<close>

subsection \<open>Objects and addresses\<close>

text \<open>
  The subject holds pointers to its observers and every observer holds a reference to its
  subject, so objects are kept in stores indexed by their addresses. A \<^verbatim>\<open>Subject\<close> has
  the list of attached observer pointers and the current message; an \<^verbatim>\<open>Observer\<close> has
  the last message received, the reference to its subject and its number.
\<close>

type_synonym addr = nat

record Subject =
  list_observer :: "addr list"
  message :: string

record Observer =
  message_from_subject :: string
  subject :: addr
  number :: int

type_synonym heap = "addr \<rightharpoonup> Observer"

text \<open>
  What the language leaves undefined is a result of the model: the use of an object
  that does not exist and the overflow of the \<^verbatim>\<open>int\<close> counter. \<^verbatim>\<open>int\<close> is taken to be
  32 bits wide.
\<close>

datatype fault = dangling_pointer | signed_overflow

definition INT_MAX :: int where
  "INT_MAX = 2147483647"

subsection \<open>The container \<^verbatim>\<open>std::list<IObserver*>\<close>\<close>

text \<open>
  \<^verbatim>\<open>push_back\<close> appends at the end; \<^verbatim>\<open>remove(value)\<close> erases every element that
  compares equal to the value; \<^verbatim>\<open>size\<close> is the length.
\<close>

definition push_back :: "addr \<Rightarrow> addr list \<Rightarrow> addr list" where
  "push_back x xs = xs @ [x]"

fun list_remove :: "addr \<Rightarrow> addr list \<Rightarrow> addr list" where
  "list_remove v [] = []"
| "list_remove v (x # xs) = (if x = v then list_remove v xs else x # list_remove v xs)"

subsection \<open>Subject\<close>

definition Attach :: "addr \<Rightarrow> Subject \<Rightarrow> Subject" where
  "Attach observer sub = sub\<lparr>list_observer := push_back observer (list_observer sub)\<rparr>"

definition Detach :: "addr \<Rightarrow> Subject \<Rightarrow> Subject" where
  "Detach observer sub = sub\<lparr>list_observer := list_remove observer (list_observer sub)\<rparr>"

definition HowManyObservers :: "Subject \<Rightarrow> ostream \<Rightarrow> ostream" where
  "HowManyObservers sub out =
     out @ ''There are '' @ show_nat (length (list_observer sub)) @ '' observers in the list.\<newline>''"

subsection \<open>Observer: PrintInfo and Update\<close>

definition PrintInfo :: "Observer \<Rightarrow> ostream \<Rightarrow> ostream" where
  \<open>PrintInfo obs out =
     out @ ''Observer "'' @ show_int (number obs) @ ''" a new message is available --> ''
         @ message_from_subject obs @ ''\<newline>''\<close>

definition Update :: "string \<Rightarrow> Observer \<Rightarrow> ostream \<Rightarrow> Observer \<times> ostream" where
  "Update msg obs out =
     (let obs' = obs\<lparr>message_from_subject := msg\<rparr>
      in (obs', PrintInfo obs' out))"

subsection \<open>Subject: Notify, CreateMessage, SomeBusinessLogic\<close>

text \<open>
  The loop of \<^verbatim>\<open>Notify\<close> walks the list from \<^verbatim>\<open>begin()\<close> to \<^verbatim>\<open>end()\<close> and calls
  \<^verbatim>\<open>Update\<close> through each pointer. \<^verbatim>\<open>Observer::Update\<close> does not touch the list, so the
  walk is a recursion over the list as it is when the loop starts. A pointer to an
  observer that no longer exists is a fault.
\<close>

fun notify_loop :: "addr list \<Rightarrow> string \<Rightarrow> heap \<times> ostream \<Rightarrow> fault + heap \<times> ostream" where
  "notify_loop [] msg st = Inr st"
| "notify_loop (it # rest) msg (h, out) =
     (case h it of
        None \<Rightarrow> Inl dangling_pointer
      | Some obs \<Rightarrow>
          (let (obs', out') = Update msg obs out
           in notify_loop rest msg (h(it \<mapsto> obs'), out')))"

definition Notify :: "Subject \<Rightarrow> heap \<times> ostream \<Rightarrow> fault + heap \<times> ostream" where
  "Notify sub st =
     (case st of (h, out) \<Rightarrow>
        notify_loop (list_observer sub) (message sub) (h, HowManyObservers sub out))"

text \<open>
  The calls \<^verbatim>\<open>(*it)->Update(message_)\<close> that the loop of \<^verbatim>\<open>Notify\<close> makes, in the order
  it makes them: the recursion of \<open>notify_loop\<close>, which records the pointer and the
  argument of each call instead of returning the state.
\<close>

fun notify_loop_calls ::
  "addr list \<Rightarrow> string \<Rightarrow> heap \<times> ostream \<Rightarrow> fault + (addr \<times> string) list" where
  "notify_loop_calls [] msg st = Inr []"
| "notify_loop_calls (it # rest) msg (h, out) =
     (case h it of
        None \<Rightarrow> Inl dangling_pointer
      | Some obs \<Rightarrow>
          (let (obs', out') = Update msg obs out
           in map_sum id ((#) (it, msg)) (notify_loop_calls rest msg (h(it \<mapsto> obs'), out'))))"

definition Notify_calls :: "Subject \<Rightarrow> heap \<times> ostream \<Rightarrow> fault + (addr \<times> string) list" where
  "Notify_calls sub st =
     (case st of (h, out) \<Rightarrow>
        notify_loop_calls (list_observer sub) (message sub) (h, HowManyObservers sub out))"

text \<open>
  \<^verbatim>\<open>void CreateMessage(std::string message = "Empty")\<close>: the argument is optional, and
  \<open>None\<close> is the call without an argument.
\<close>

definition CreateMessage ::
  "string option \<Rightarrow> Subject \<Rightarrow> heap \<times> ostream \<Rightarrow> fault + Subject \<times> heap \<times> ostream" where
  "CreateMessage arg sub st =
     (let message' = (case arg of None \<Rightarrow> ''Empty'' | Some m \<Rightarrow> m);
          sub' = sub\<lparr>message := message'\<rparr>
      in case Notify sub' st of
           Inl e \<Rightarrow> Inl e
         | Inr st' \<Rightarrow> Inr (sub', st'))"

definition SomeBusinessLogic ::
  "Subject \<Rightarrow> heap \<times> ostream \<Rightarrow> fault + Subject \<times> heap \<times> ostream" where
  "SomeBusinessLogic sub st =
     (let sub' = sub\<lparr>message := ''change message''\<rparr>
      in case Notify sub' st of
           Inl e \<Rightarrow> Inl e
         | Inr (h, out) \<Rightarrow> Inr (sub', h, out @ ''I'm about to do something important.\<newline>''))"

subsection \<open>The process: stores, the static counter and the client's calls\<close>

record world =
  subjects :: "addr \<rightharpoonup> Subject"
  observers :: heap
  static_number :: int
  cout :: ostream

text \<open>\<^verbatim>\<open>int Observer::static_number_ = 0;\<close>\<close>

definition initial_world :: world where
  "initial_world = \<lparr>subjects = Map.empty, observers = Map.empty, static_number = 0, cout = ''''\<rparr>"

text \<open>
  The constructor of the observer at address \<open>self\<close>, for the subject at \<open>s\<close>: it attaches
  itself, prints the incremented counter (\<^verbatim>\<open>++Observer::static_number_\<close>) and stores
  it as its number. The increment of a counter that holds \<^verbatim>\<open>INT_MAX\<close> is a signed
  overflow.
\<close>

definition Observer_ctor :: "addr \<Rightarrow> addr \<Rightarrow> world \<Rightarrow> fault + world" where
  \<open>Observer_ctor self s w =
     (case subjects w s of
        None \<Rightarrow> Inl dangling_pointer
      | Some sub \<Rightarrow>
          if static_number w = INT_MAX then Inl signed_overflow
          else
            (let n = static_number w + 1
             in Inr (w\<lparr>subjects := (subjects w)(s \<mapsto> Attach self sub),
                       observers := (observers w)(self \<mapsto>
                          \<lparr>message_from_subject = '''', subject = s, number = n\<rparr>),
                       static_number := n,
                       cout := cout w @ ''Hi, I'm the Observer "'' @ show_int n @ ''"\<newline>''\<rparr>)))\<close>

text \<open>The destructor prints and does not detach.\<close>

definition Observer_dtor :: "addr \<Rightarrow> world \<Rightarrow> fault + world" where
  \<open>Observer_dtor self w =
     (case observers w self of
        None \<Rightarrow> Inl dangling_pointer
      | Some obs \<Rightarrow>
          Inr (w\<lparr>observers := (observers w)(self := None),
                 cout := cout w @ ''Goodbye, I was the Observer "'' @ show_int (number obs)
                           @ ''"\<newline>''\<rparr>))\<close>

definition RemoveMeFromTheList :: "addr \<Rightarrow> world \<Rightarrow> fault + world" where
  \<open>RemoveMeFromTheList self w =
     (case observers w self of
        None \<Rightarrow> Inl dangling_pointer
      | Some obs \<Rightarrow>
          (case subjects w (subject obs) of
             None \<Rightarrow> Inl dangling_pointer
           | Some sub \<Rightarrow>
               Inr (w\<lparr>subjects := (subjects w)(subject obs \<mapsto> Detach self sub),
                      cout := cout w @ ''Observer "'' @ show_int (number obs)
                                @ ''" removed from the list.\<newline>''\<rparr>)))\<close>

text \<open>What client code can do with subjects and observers.\<close>

datatype call =
    new_Subject addr
  | delete_Subject addr
  | new_Observer addr addr
  | delete_Observer addr
  | call_Attach addr addr
  | call_Detach addr addr
  | call_Notify addr
  | call_CreateMessage addr "string option"
  | call_HowManyObservers addr
  | call_SomeBusinessLogic addr
  | call_Update addr string
  | call_PrintInfo addr
  | call_RemoveMeFromTheList addr

fun exec :: "call \<Rightarrow> world \<Rightarrow> fault + world" where
  "exec (new_Subject s) w =
     Inr (w\<lparr>subjects := (subjects w)(s \<mapsto> \<lparr>list_observer = [], message = ''''\<rparr>)\<rparr>)"
| "exec (delete_Subject s) w =
     (case subjects w s of
        None \<Rightarrow> Inl dangling_pointer
      | Some sub \<Rightarrow> Inr (w\<lparr>subjects := (subjects w)(s := None)\<rparr>))"
| "exec (new_Observer self s) w = Observer_ctor self s w"
| "exec (delete_Observer self) w = Observer_dtor self w"
| "exec (call_Attach s observer) w =
     (case subjects w s of
        None \<Rightarrow> Inl dangling_pointer
      | Some sub \<Rightarrow> Inr (w\<lparr>subjects := (subjects w)(s \<mapsto> Attach observer sub)\<rparr>))"
| "exec (call_Detach s observer) w =
     (case subjects w s of
        None \<Rightarrow> Inl dangling_pointer
      | Some sub \<Rightarrow> Inr (w\<lparr>subjects := (subjects w)(s \<mapsto> Detach observer sub)\<rparr>))"
| "exec (call_Notify s) w =
     (case subjects w s of
        None \<Rightarrow> Inl dangling_pointer
      | Some sub \<Rightarrow>
          (case Notify sub (observers w, cout w) of
             Inl e \<Rightarrow> Inl e
           | Inr (h, out) \<Rightarrow> Inr (w\<lparr>observers := h, cout := out\<rparr>)))"
| "exec (call_CreateMessage s arg) w =
     (case subjects w s of
        None \<Rightarrow> Inl dangling_pointer
      | Some sub \<Rightarrow>
          (case CreateMessage arg sub (observers w, cout w) of
             Inl e \<Rightarrow> Inl e
           | Inr (sub', h, out) \<Rightarrow>
               Inr (w\<lparr>subjects := (subjects w)(s \<mapsto> sub'), observers := h, cout := out\<rparr>)))"
| "exec (call_HowManyObservers s) w =
     (case subjects w s of
        None \<Rightarrow> Inl dangling_pointer
      | Some sub \<Rightarrow> Inr (w\<lparr>cout := HowManyObservers sub (cout w)\<rparr>))"
| "exec (call_SomeBusinessLogic s) w =
     (case subjects w s of
        None \<Rightarrow> Inl dangling_pointer
      | Some sub \<Rightarrow>
          (case SomeBusinessLogic sub (observers w, cout w) of
             Inl e \<Rightarrow> Inl e
           | Inr (sub', h, out) \<Rightarrow>
               Inr (w\<lparr>subjects := (subjects w)(s \<mapsto> sub'), observers := h, cout := out\<rparr>)))"
| "exec (call_Update self msg) w =
     (case observers w self of
        None \<Rightarrow> Inl dangling_pointer
      | Some obs \<Rightarrow>
          (let (obs', out) = Update msg obs (cout w)
           in Inr (w\<lparr>observers := (observers w)(self \<mapsto> obs'), cout := out\<rparr>)))"
| "exec (call_PrintInfo self) w =
     (case observers w self of
        None \<Rightarrow> Inl dangling_pointer
      | Some obs \<Rightarrow> Inr (w\<lparr>cout := PrintInfo obs (cout w)\<rparr>))"
| "exec (call_RemoveMeFromTheList self) w = RemoveMeFromTheList self w"

fun run :: "call list \<Rightarrow> world \<Rightarrow> fault + world" where
  "run [] w = Inr w"
| "run (c # cs) w = (case exec c w of Inl e \<Rightarrow> Inl e | Inr w' \<Rightarrow> run cs w')"

text \<open>\<^verbatim>\<open>ClientCode\<close>, with the subject at address 0 and observer \<open>i\<close> at address \<open>i\<close>.\<close>

definition ClientCode :: "call list" where
  "ClientCode =
     [new_Subject 0, new_Observer 1 0, new_Observer 2 0, new_Observer 3 0,
      call_CreateMessage 0 (Some ''Hello World! :D''),
      call_RemoveMeFromTheList 3,
      call_CreateMessage 0 (Some ''The weather is hot today! :P''),
      new_Observer 4 0,
      call_RemoveMeFromTheList 2,
      new_Observer 5 0,
      call_CreateMessage 0 (Some ''My new car is great! ;)''),
      call_RemoveMeFromTheList 5,
      call_RemoveMeFromTheList 4,
      call_RemoveMeFromTheList 1,
      delete_Observer 5, delete_Observer 4, delete_Observer 3, delete_Observer 2,
      delete_Observer 1, delete_Subject 0]"

text \<open>The output that the source file lists for \<^verbatim>\<open>ClientCode\<close>.\<close>

definition ClientCode_output :: string where
  \<open>ClientCode_output =
     ''Hi, I'm the Observer "1"\<newline>''
   @ ''Hi, I'm the Observer "2"\<newline>''
   @ ''Hi, I'm the Observer "3"\<newline>''
   @ ''There are 3 observers in the list.\<newline>''
   @ ''Observer "1" a new message is available --> Hello World! :D\<newline>''
   @ ''Observer "2" a new message is available --> Hello World! :D\<newline>''
   @ ''Observer "3" a new message is available --> Hello World! :D\<newline>''
   @ ''Observer "3" removed from the list.\<newline>''
   @ ''There are 2 observers in the list.\<newline>''
   @ ''Observer "1" a new message is available --> The weather is hot today! :P\<newline>''
   @ ''Observer "2" a new message is available --> The weather is hot today! :P\<newline>''
   @ ''Hi, I'm the Observer "4"\<newline>''
   @ ''Observer "2" removed from the list.\<newline>''
   @ ''Hi, I'm the Observer "5"\<newline>''
   @ ''There are 3 observers in the list.\<newline>''
   @ ''Observer "1" a new message is available --> My new car is great! ;)\<newline>''
   @ ''Observer "4" a new message is available --> My new car is great! ;)\<newline>''
   @ ''Observer "5" a new message is available --> My new car is great! ;)\<newline>''
   @ ''Observer "5" removed from the list.\<newline>''
   @ ''Observer "4" removed from the list.\<newline>''
   @ ''Observer "1" removed from the list.\<newline>''
   @ ''Goodbye, I was the Observer "5"\<newline>''
   @ ''Goodbye, I was the Observer "4"\<newline>''
   @ ''Goodbye, I was the Observer "3"\<newline>''
   @ ''Goodbye, I was the Observer "2"\<newline>''
   @ ''Goodbye, I was the Observer "1"\<newline>''\<close>

subsection \<open>Names for the statements about subjects and observers\<close>

text \<open>The store of observers after each observer at an address of \<open>ps\<close> received \<open>msg\<close>.\<close>

definition received :: "string \<Rightarrow> addr list \<Rightarrow> heap \<Rightarrow> heap" where
  "received msg ps h =
     (\<lambda>q. if q \<in> set ps
          then map_option (\<lambda>obs. obs\<lparr>message_from_subject := msg\<rparr>) (h q)
          else h q)"









text \<open>Sample objects.\<close>

definition observer_1 :: Observer where
  "observer_1 = \<lparr>message_from_subject = '''', subject = 0, number = 1\<rparr>"

definition observer_2 :: Observer where
  "observer_2 = \<lparr>message_from_subject = '''', subject = 0, number = 2\<rparr>"

definition heap_12 :: heap where
  "heap_12 = [1 \<mapsto> observer_1, 2 \<mapsto> observer_2]"

definition no_observers :: heap where
  "no_observers = Map.empty"

definition subject_12 :: Subject where
  "subject_12 = \<lparr>list_observer = [1, 2], message = ''Hello''\<rparr>"

definition subject_empty :: Subject where
  "subject_empty = \<lparr>list_observer = [], message = ''Hello''\<rparr>"

text \<open>A subject to which observer 1 was attached twice.\<close>

definition subject_121 :: Subject where
  "subject_121 = \<lparr>list_observer = [1, 2, 1], message = ''Hello''\<rparr>"


definition world_1 :: world where
  "world_1 = \<lparr>subjects = [0 \<mapsto> \<lparr>list_observer = [1], message = ''''\<rparr>],
              observers = [1 \<mapsto> observer_1], static_number = 1, cout = ''''\<rparr>"



section \<open>Flyweight: properties of the registry\<close>

subsection \<open>The container and the two paths of \<^verbatim>\<open>GetFlyweight\<close>\<close>

lemma um_find_append_new:
  "um_find k m = None \<Longrightarrow> um_find k' (m @ [(k, v)]) = (if k' = k then Some v else um_find k' m)"
  by (auto simp: um_find_def map_add_def split: option.splits)

lemma um_find_None_iff: "um_find k m = None \<longleftrightarrow> k \<notin> fst ` set m"
  by (simp add: um_find_def map_of_eq_None_iff)

lemma um_insert_keys: "fst ` set (um_insert (k, v) m) = insert k (fst ` set m)"
  by (auto simp: um_insert_def um_find_None_iff)

lemma um_insert_mono: "set m \<subseteq> set (um_insert kv m)"
  by (auto simp: um_insert_def)

lemma um_insert_distinct: "distinct (map fst m) \<Longrightarrow> distinct (map fst (um_insert kv m))"
  by (auto simp: um_insert_def um_find_None_iff)

lemma um_insert_all: "list_all P m \<Longrightarrow> P kv \<Longrightarrow> list_all P (um_insert kv m)"
  by (auto simp: um_insert_def)

lemma um_insert_length: "length m \<le> length (um_insert kv m)"
  by (simp add: um_insert_def)

lemma distinct_keys_length: "distinct (map fst m) \<Longrightarrow> length m = card (fst ` set m)"
  by (metis distinct_card length_map set_map)

lemma distinct_keys_entries: "distinct (map fst m) \<Longrightarrow> length m = card (set m)"
  by (metis distinct_card distinct_map)

lemma GetFlyweight_miss:
  "um_find (GetKey ss) (flyweights f) = None \<Longrightarrow>
   GetFlyweight ss (f, out) =
     Inr (Flyweight_ctor ss,
          f\<lparr>flyweights := flyweights f @ [(GetKey ss, Flyweight_ctor ss)]\<rparr>,
          out @ created_line)"
  by (simp add: um_insert_def um_at_def um_find_append_new created_line_def)

lemma GetFlyweight_hit:
  "um_find (GetKey ss) (flyweights f) = Some fw \<Longrightarrow>
   GetFlyweight ss (f, out) = Inr (fw, f, out @ reused_line)"
  by (simp add: um_at_def reused_line_def)

declare GetFlyweight.simps [simp del]

lemma GetFlyweight_cases:
  obtains (miss) "GetKey ss \<notin> fst ` set (flyweights f)"
      "GetFlyweight ss (f, out) =
         Inr (Flyweight_ctor ss,
              f\<lparr>flyweights := flyweights f @ [(GetKey ss, Flyweight_ctor ss)]\<rparr>,
              out @ created_line)"
  | (hit) fw where "um_find (GetKey ss) (flyweights f) = Some fw"
      "GetFlyweight ss (f, out) = Inr (fw, f, out @ reused_line)"
proof (cases "um_find (GetKey ss) (flyweights f)")
  case None
  then show ?thesis using miss GetFlyweight_miss um_find_None_iff by blast
next
  case (Some fw)
  then show ?thesis using hit GetFlyweight_hit by blast
qed

text \<open>
  A request never throws; the flyweight it returns is the entry stored under the key of
  the request, and the entries that were there stay where they were.
\<close>

lemma GetFlyweight_stored:
  "\<exists>fw f' out'. GetFlyweight ss (f, out) = Inr (fw, f', out')
     \<and> um_find (GetKey ss) (flyweights f') = Some fw
     \<and> (\<forall>k v. um_find k (flyweights f) = Some v \<longrightarrow> um_find k (flyweights f') = Some v)"
proof (cases rule: GetFlyweight_cases[of ss f out])
  case miss
  then show ?thesis
    by (auto simp: um_find_append_new um_find_None_iff[symmetric])
next
  case (hit fw)
  then show ?thesis by simp
qed

subsection \<open>Construction-time population\<close>

lemma populate_Nil [simp]: "populate [] f = f"
  by (simp add: populate_def)

lemma populate_Cons [simp]:
  "populate (ss # xs) f =
     populate xs (f\<lparr>flyweights := um_insert (GetKey ss, Flyweight_ctor ss) (flyweights f)\<rparr>)"
  by (simp add: populate_def)

lemma populate_append: "populate (xs @ ys) f = populate ys (populate xs f)"
  by (simp add: populate_def)

lemma populate_mono: "set (flyweights f) \<subseteq> set (flyweights (populate xs f))"
proof (induction xs arbitrary: f)
  case Nil
  show ?case by simp
next
  case (Cons ss xs)
  have "set (flyweights f) \<subseteq> set (um_insert (GetKey ss, Flyweight_ctor ss) (flyweights f))"
    by (rule um_insert_mono)
  also have "\<dots> \<subseteq> set (flyweights (populate (ss # xs) f))"
    using Cons.IH[of "f\<lparr>flyweights := um_insert (GetKey ss, Flyweight_ctor ss) (flyweights f)\<rparr>"]
    by simp
  finally show ?case .
qed

lemma populate_distinct:
  "distinct (map fst (flyweights f)) \<Longrightarrow> distinct (map fst (flyweights (populate xs f)))"
  by (induction xs arbitrary: f) (auto simp: um_insert_distinct)

lemma populate_consistent: "key_consistent f \<Longrightarrow> key_consistent (populate xs f)"
proof (induction xs arbitrary: f)
  case Nil
  then show ?case by simp
next
  case (Cons ss xs)
  have "key_consistent (f\<lparr>flyweights := um_insert (GetKey ss, Flyweight_ctor ss) (flyweights f)\<rparr>)"
    using Cons.prems by (simp add: key_consistent_def um_insert_all Flyweight_ctor_def)
  then show ?case using Cons.IH by simp
qed

lemma populate_count: "count f \<le> count (populate xs f)"
proof (induction xs arbitrary: f)
  case Nil
  show ?case by simp
next
  case (Cons ss xs)
  have "count f \<le> count (f\<lparr>flyweights := um_insert (GetKey ss, Flyweight_ctor ss) (flyweights f)\<rparr>)"
    by (simp add: count_def um_size_def um_insert_length)
  also have "\<dots> \<le> count (populate (ss # xs) f)"
    using Cons.IH by simp
  finally show ?case .
qed

lemma ctor_distinct: "distinct (map fst (flyweights (FlyweightFactory_ctor init)))"
  by (simp add: FlyweightFactory_ctor_def populate_distinct)

lemma ctor_consistent: "key_consistent (FlyweightFactory_ctor init)"
proof -
  have "key_consistent \<lparr>flyweights = []\<rparr>" by (simp add: key_consistent_def)
  then show ?thesis unfolding FlyweightFactory_ctor_def by (rule populate_consistent)
qed

subsection \<open>Runs of requests\<close>

lemma GetFlyweights_append:
  "GetFlyweights (xs @ ys) st =
     (case GetFlyweights xs st of Inl e \<Rightarrow> Inl e | Inr st' \<Rightarrow> GetFlyweights ys st')"
proof (induction xs arbitrary: st)
  case Nil
  show ?case by simp
next
  case (Cons ss xs)
  show ?case
    by (cases "GetFlyweight ss st") (auto simp: Cons.IH)
qed

text \<open>What a run of requests does to any registry: it never throws, and it adds one
  entry for each key among the requests that the registry did not hold.\<close>

lemma GetFlyweights_run:
  "\<exists>f' out'. GetFlyweights reqs (f, out) = Inr (f', out')
     \<and> fst ` set (flyweights f') = fst ` set (flyweights f) \<union> GetKey ` set reqs
     \<and> count f' = count f + card (GetKey ` set reqs - fst ` set (flyweights f))
     \<and> set (flyweights f) \<subseteq> set (flyweights f')
     \<and> (distinct (map fst (flyweights f)) \<longrightarrow> distinct (map fst (flyweights f')))
     \<and> (key_consistent f \<longrightarrow> key_consistent f')"
proof (induction reqs arbitrary: f out)
  case Nil
  show ?case by simp
next
  case (Cons ss reqs)
  let ?K = "fst ` set (flyweights f)"
  let ?R = "GetKey ` set reqs"
  show ?case
  proof (cases rule: GetFlyweight_cases[of ss f out])
    case miss
    let ?f1 = "f\<lparr>flyweights := flyweights f @ [(GetKey ss, Flyweight_ctor ss)]\<rparr>"
    obtain f' out' where r: "GetFlyweights reqs (?f1, out @ created_line) = Inr (f', out')"
      and k: "fst ` set (flyweights f') = fst ` set (flyweights ?f1) \<union> ?R"
      and c: "count f' = count ?f1 + card (?R - fst ` set (flyweights ?f1))"
      and s: "set (flyweights ?f1) \<subseteq> set (flyweights f')"
      and d: "distinct (map fst (flyweights ?f1)) \<longrightarrow> distinct (map fst (flyweights f'))"
      and kc: "key_consistent ?f1 \<longrightarrow> key_consistent f'"
      using Cons.IH[of ?f1 "out @ created_line"] by blast
    have fin: "finite ?R" by simp
    have "insert (GetKey ss) ?R - ?K = insert (GetKey ss) (?R - insert (GetKey ss) ?K)"
      using miss(1) by auto
    then have "card (insert (GetKey ss) ?R - ?K) = Suc (card (?R - insert (GetKey ss) ?K))"
      using fin by simp
    then have c': "count f' = count f + card (GetKey ` set (ss # reqs) - ?K)"
      using c by (simp add: count_def um_size_def)
    have d': "distinct (map fst (flyweights f)) \<longrightarrow> distinct (map fst (flyweights f'))"
      using d miss(1) by simp
    have kc': "key_consistent f \<longrightarrow> key_consistent f'"
      using kc by (simp add: key_consistent_def Flyweight_ctor_def)
    show ?thesis
      using miss(2) r k c' s d' kc' by auto
  next
    case (hit fw)
    obtain f' out' where r: "GetFlyweights reqs (f, out @ reused_line) = Inr (f', out')"
      and k: "fst ` set (flyweights f') = ?K \<union> ?R"
      and c: "count f' = count f + card (?R - ?K)"
      and rest: "set (flyweights f) \<subseteq> set (flyweights f')"
        "distinct (map fst (flyweights f)) \<longrightarrow> distinct (map fst (flyweights f'))"
        "key_consistent f \<longrightarrow> key_consistent f'"
      using Cons.IH[of f "out @ reused_line"] by blast
    have inK: "GetKey ss \<in> ?K"
      using hit(1) um_find_None_iff[of "GetKey ss" "flyweights f"] by simp
    then have "insert (GetKey ss) ?R - ?K = ?R - ?K" by auto
    then have c': "count f' = count f + card (GetKey ` set (ss # reqs) - ?K)"
      using c by simp
    show ?thesis
      using hit(2) r k c' rest inK by auto
  qed
qed

subsection \<open>The key\<close>

lemma sep_split:
  "CHR ''_'' \<notin> set x \<Longrightarrow> CHR ''_'' \<notin> set y \<Longrightarrow> x @ CHR ''_'' # r = y @ CHR ''_'' # s
   \<Longrightarrow> x = y \<and> r = s"
proof (induction x arbitrary: y)
  case Nil
  then show ?case by (cases y) auto
next
  case (Cons c x)
  then show ?case by (cases y) auto
qed

lemma GetKey_inj:
  assumes "CHR ''_'' \<notin> set (brand a) \<union> set (model a) \<union> set (brand b) \<union> set (model b)"
    and "GetKey a = GetKey b"
  shows "a = b"
proof -
  from assms(2) have e: "brand a @ CHR ''_'' # (model a @ CHR ''_'' # color a)
      = brand b @ CHR ''_'' # (model b @ CHR ''_'' # color b)"
    by (simp add: GetKey_def)
  from assms(1) have 1: "brand a = brand b"
    and r: "model a @ CHR ''_'' # color a = model b @ CHR ''_'' # color b"
    using sep_split[OF _ _ e] by auto
  from assms(1) have "model a = model b \<and> color a = color b"
    using sep_split[OF _ _ r] by auto
  with 1 show ?thesis by simp
qed

subsection \<open>The run of \<^verbatim>\<open>main\<close>\<close>

text \<open>
  The two calls of \<^verbatim>\<open>AddCarToPoliceDatabase\<close> in \<^verbatim>\<open>main\<close> print what the source file
  lists as their output, and leave six flyweights.
\<close>

lemma main_prints:
  "(case AddCarToPoliceDatabase ''CL234IR'' ''James Doe'' ''BMW'' ''M5'' ''red'' (main_factory, '''') of
      Inl e \<Rightarrow> Inl e
    | Inr st \<Rightarrow> AddCarToPoliceDatabase ''CL234IR'' ''James Doe'' ''BMW'' ''X1'' ''red'' st)
   = Inr (populate [bmw_x1_red] main_factory,
      ''\<newline>Client: Adding a car to database.\<newline>''
      @ ''FlyweightFactory: Reusing existing flyweight.\<newline>''
      @ ''Flyweight: Displaying shared ([ BMW, M5, red ]) and unique ([ James Doe, CL234IR ]) state.\<newline>''
      @ ''\<newline>Client: Adding a car to database.\<newline>''
      @ ''FlyweightFactory: Can't find a flyweight, creating a new one.\<newline>''
      @ ''Flyweight: Displaying shared ([ BMW, X1, red ]) and unique ([ James Doe, CL234IR ]) state.\<newline>'')
   \<and> count main_factory = 5 \<and> count (populate [bmw_x1_red] main_factory) = 6"
  by (simp add: main_factory_def FlyweightFactory_ctor_def GetFlyweight.simps bmw_x1_red_def
      GetKey_def um_find_def um_insert_def um_at_def um_size_def count_def Flyweight_ctor_def
      Operation_def show_SharedState_def show_UniqueState_def)

subsection \<open>The claims about the registry\<close>

text \<open>
  Claim C8. Starting from a registry without entries, the first request of
  {"BMW","M5","red"} takes the creating path (and so registers the state), the second
  request of it takes the reusing path, and the registry holds one flyweight after
  both; the request of {"BMW","X1","red"} that follows takes the creating path and
  leaves two flyweights. Each call starts here with an empty output, so the text shown
  is what that call printed.
\<close>

theorem flyweight_scenario_A:
  "GetFlyweight bmw_m5_red (FlyweightFactory_ctor [], '''')
     = Inr (\<lparr>shared_state = bmw_m5_red\<rparr>, factory_1, created_line)
   \<and> GetFlyweight bmw_m5_red (factory_1, '''')
     = Inr (\<lparr>shared_state = bmw_m5_red\<rparr>, factory_1, reused_line)
   \<and> count factory_1 = 1
   \<and> GetFlyweight bmw_x1_red (factory_1, '''')
     = Inr (\<lparr>shared_state = bmw_x1_red\<rparr>, factory_2, created_line)
   \<and> count factory_2 = 2
   \<and> created_line \<noteq> reused_line"
  by (simp add: FlyweightFactory_ctor_def factory_1_def factory_2_def bmw_m5_red_def
      bmw_x1_red_def created_line_def reused_line_def GetKey_def um_find_def um_insert_def
      um_at_def um_size_def count_def Flyweight_ctor_def GetFlyweight.simps)

lemma GetFlyweight_fresh:
  "um_find (GetKey ss) (flyweights f) = None \<Longrightarrow> GetFlyweight ss (f, out) = Inr (fw, f', out')
   \<Longrightarrow> shared_state fw = ss"
  by (simp add: GetFlyweight_miss Flyweight_ctor_def) auto

text \<open>
  Claim C1. For two states with the same brand, model and color and any registry, the
  request of the first and then of the second both return; each returns the entry that
  the registry stores under the key of the state, and it is the same entry, so the two
  flyweights hold the same state; that entry holds the requested state when the key was
  not in the registry, and is the entry that was there otherwise; the count after the
  second request is the count after the first, the second request leaves the registry
  as it was and reports the reuse.
\<close>

theorem interning_identity:
  assumes "brand a = brand b" and "model a = model b" and "color a = color b"
  shows "\<exists>fa f1 out1 fb f2 out2.
           GetFlyweight a (f, out) = Inr (fa, f1, out1)
         \<and> GetFlyweight b (f1, out1) = Inr (fb, f2, out2)
         \<and> um_find (GetKey a) (flyweights f1) = Some fa
         \<and> um_find (GetKey b) (flyweights f2) = Some fb
         \<and> fb = fa
         \<and> shared_state fa = shared_state fb
         \<and> (um_find (GetKey a) (flyweights f) = None \<longrightarrow> shared_state fa = a)
         \<and> (\<forall>fw. um_find (GetKey a) (flyweights f) = Some fw \<longrightarrow> fa = fw)
         \<and> count f2 = count f1
         \<and> f2 = f1 \<and> out2 = out1 @ reused_line"
proof -
  from assms have ab: "b = a" by simp
  obtain fa f1 out1 where 1: "GetFlyweight a (f, out) = Inr (fa, f1, out1)"
    and s: "um_find (GetKey a) (flyweights f1) = Some fa"
    and k: "\<forall>k v. um_find k (flyweights f) = Some v \<longrightarrow> um_find k (flyweights f1) = Some v"
    using GetFlyweight_stored[of a f out] by blast
  have 2: "GetFlyweight b (f1, out1) = Inr (fa, f1, out1 @ reused_line)"
    using s ab by (simp add: GetFlyweight_hit)
  have fresh: "um_find (GetKey a) (flyweights f) = None \<longrightarrow> shared_state fa = a"
    using 1 GetFlyweight_fresh by blast
  have old: "\<forall>fw. um_find (GetKey a) (flyweights f) = Some fw \<longrightarrow> fa = fw"
    using k s by auto
  show ?thesis using 1 2 s ab fresh old by simp
qed

theorem interning_identity_witness:
  "brand bmw_m5_red = brand \<lparr>brand = ''BMW'', model = ''M5'', color = ''red''\<rparr>
   \<and> model bmw_m5_red = model \<lparr>brand = ''BMW'', model = ''M5'', color = ''red''\<rparr>
   \<and> color bmw_m5_red = color \<lparr>brand = ''BMW'', model = ''M5'', color = ''red''\<rparr>
   \<and> um_find (GetKey bmw_m5_red) (flyweights (FlyweightFactory_ctor [bmw_x1_red])) = None
   \<and> um_find (GetKey bmw_x1_red) (flyweights (FlyweightFactory_ctor [bmw_x1_red]))
       = Some \<lparr>shared_state = bmw_x1_red\<rparr>
   \<and> (\<exists>fa f1 out1 fb f2 out2.
           GetFlyweight bmw_m5_red (FlyweightFactory_ctor [bmw_x1_red], '''') = Inr (fa, f1, out1)
         \<and> GetFlyweight \<lparr>brand = ''BMW'', model = ''M5'', color = ''red''\<rparr> (f1, out1)
              = Inr (fb, f2, out2)
         \<and> um_find (GetKey bmw_m5_red) (flyweights f1) = Some fa
         \<and> fb = fa
         \<and> shared_state fa = bmw_m5_red
         \<and> count f2 = count f1
         \<and> f2 = f1 \<and> out2 = out1 @ reused_line)
   \<and> (\<exists>fa f1 out1.
           GetFlyweight bmw_x1_red (FlyweightFactory_ctor [bmw_x1_red], '''') = Inr (fa, f1, out1)
         \<and> fa = \<lparr>shared_state = bmw_x1_red\<rparr>)"
proof -
  let ?b = "\<lparr>brand = ''BMW'', model = ''M5'', color = ''red''\<rparr>"
  let ?f = "FlyweightFactory_ctor [bmw_x1_red]"
  have e: "brand bmw_m5_red = brand ?b \<and> model bmw_m5_red = model ?b \<and> color bmw_m5_red = color ?b"
    by (simp add: bmw_m5_red_def)
  have none: "um_find (GetKey bmw_m5_red) (flyweights ?f) = None"
    by (simp add: FlyweightFactory_ctor_def um_insert_def um_find_def GetKey_def
        bmw_m5_red_def bmw_x1_red_def)
  have some: "um_find (GetKey bmw_x1_red) (flyweights ?f) = Some \<lparr>shared_state = bmw_x1_red\<rparr>"
    by (simp add: FlyweightFactory_ctor_def um_insert_def um_find_def GetKey_def
        Flyweight_ctor_def)
  from interning_identity[of bmw_m5_red ?b ?f "''''"] e none
  have A: "\<exists>fa f1 out1 fb f2 out2.
           GetFlyweight bmw_m5_red (?f, '''') = Inr (fa, f1, out1)
         \<and> GetFlyweight ?b (f1, out1) = Inr (fb, f2, out2)
         \<and> um_find (GetKey bmw_m5_red) (flyweights f1) = Some fa
         \<and> fb = fa
         \<and> shared_state fa = bmw_m5_red
         \<and> count f2 = count f1
         \<and> f2 = f1 \<and> out2 = out1 @ reused_line"
    by blast
  from interning_identity[of bmw_x1_red bmw_x1_red ?f "''''"] some
  have B: "\<exists>fa f1 out1.
           GetFlyweight bmw_x1_red (?f, '''') = Inr (fa, f1, out1)
         \<and> fa = \<lparr>shared_state = bmw_x1_red\<rparr>"
    by blast
  show ?thesis using e none some A B by blast
qed

text \<open>
  The key is not injective: the separator can occur in a field. The two Mercedes
  states differ in brand and in model and have the same key; the request of the second
  after the first reports a reuse, returns the flyweight of the first and leaves one
  entry.
\<close>

theorem interning_distinctness_counterexample:
  "mercedes_a \<noteq> mercedes_b
   \<and> brand mercedes_a \<noteq> brand mercedes_b
   \<and> model mercedes_a \<noteq> model mercedes_b
   \<and> GetKey mercedes_a = GetKey mercedes_b
   \<and> GetFlyweight mercedes_a (FlyweightFactory_ctor [], '''')
       = Inr (\<lparr>shared_state = mercedes_a\<rparr>, factory_mercedes, created_line)
   \<and> GetFlyweight mercedes_b (factory_mercedes, created_line)
       = Inr (\<lparr>shared_state = mercedes_a\<rparr>, factory_mercedes, created_line @ reused_line)
   \<and> count factory_mercedes = 1"
  by (simp add: mercedes_a_def mercedes_b_def factory_mercedes_def GetKey_def
      FlyweightFactory_ctor_def GetFlyweight.simps um_find_def um_insert_def um_at_def
      um_size_def count_def Flyweight_ctor_def created_line_def reused_line_def)

text \<open>
  Claim C2, amended. Two states that differ in a field have distinct keys whenever the
  separator character does not occur in the brand or the model of either; the flyweight
  returned for a request is the entry stored under the key of that request; and over
  any sequence of requests on any registry the count grows by the number of distinct
  keys among the requests that the registry did not hold before, each counted once.
\<close>

theorem interning_distinctness:
  "(a \<noteq> b \<and> CHR ''_'' \<notin> set (brand a) \<union> set (model a) \<union> set (brand b) \<union> set (model b)
      \<longrightarrow> GetKey a \<noteq> GetKey b)
   \<and> (\<exists>fa f1 out1 fb f2 out2.
          GetFlyweight a (f, out) = Inr (fa, f1, out1)
        \<and> GetFlyweight b (f1, out1) = Inr (fb, f2, out2)
        \<and> um_find (GetKey a) (flyweights f2) = Some fa
        \<and> um_find (GetKey b) (flyweights f2) = Some fb)
   \<and> (\<exists>f' out'.
          GetFlyweights reqs (f, out) = Inr (f', out')
        \<and> fst ` set (flyweights f') = fst ` set (flyweights f) \<union> GetKey ` set reqs
        \<and> count f' = count f + card (GetKey ` set reqs - fst ` set (flyweights f)))"
proof (intro conjI)
  show "a \<noteq> b \<and> CHR ''_'' \<notin> set (brand a) \<union> set (model a) \<union> set (brand b) \<union> set (model b)
      \<longrightarrow> GetKey a \<noteq> GetKey b"
    using GetKey_inj[of a b] by blast
next
  obtain fa f1 out1 where 1: "GetFlyweight a (f, out) = Inr (fa, f1, out1)"
    and s1: "um_find (GetKey a) (flyweights f1) = Some fa"
    using GetFlyweight_stored[of a f out] by blast
  obtain fb f2 out2 where 2: "GetFlyweight b (f1, out1) = Inr (fb, f2, out2)"
    and s2: "um_find (GetKey b) (flyweights f2) = Some fb"
    and k: "\<forall>k v. um_find k (flyweights f1) = Some v \<longrightarrow> um_find k (flyweights f2) = Some v"
    using GetFlyweight_stored[of b f1 out1] by blast
  from k s1 have "um_find (GetKey a) (flyweights f2) = Some fa" by blast
  with 1 2 s2 show "\<exists>fa f1 out1 fb f2 out2.
          GetFlyweight a (f, out) = Inr (fa, f1, out1)
        \<and> GetFlyweight b (f1, out1) = Inr (fb, f2, out2)
        \<and> um_find (GetKey a) (flyweights f2) = Some fa
        \<and> um_find (GetKey b) (flyweights f2) = Some fb"
    by blast
next
  show "\<exists>f' out'.
          GetFlyweights reqs (f, out) = Inr (f', out')
        \<and> fst ` set (flyweights f') = fst ` set (flyweights f) \<union> GetKey ` set reqs
        \<and> count f' = count f + card (GetKey ` set reqs - fst ` set (flyweights f))"
    using GetFlyweights_run[of reqs f out] by blast
qed

theorem interning_distinctness_witness:
  "bmw_m5_red \<noteq> bmw_x1_red
   \<and> CHR ''_'' \<notin> set (brand bmw_m5_red) \<union> set (model bmw_m5_red)
                    \<union> set (brand bmw_x1_red) \<union> set (model bmw_x1_red)
   \<and> GetKey bmw_m5_red \<noteq> GetKey bmw_x1_red
   \<and> (\<exists>f' out'.
          GetFlyweights [bmw_m5_red, bmw_x1_red, bmw_m5_red] (FlyweightFactory_ctor [], '''')
            = Inr (f', out')
        \<and> count f' = 2)"
proof -
  let ?reqs = "[bmw_m5_red, bmw_x1_red, bmw_m5_red]"
  let ?f0 = "FlyweightFactory_ctor []"
  note t = interning_distinctness[of bmw_m5_red bmw_x1_red ?f0 "''''" ?reqs]
  have ne: "bmw_m5_red \<noteq> bmw_x1_red"
    by (simp add: bmw_m5_red_def bmw_x1_red_def)
  have sep: "CHR ''_'' \<notin> set (brand bmw_m5_red) \<union> set (model bmw_m5_red)
                    \<union> set (brand bmw_x1_red) \<union> set (model bmw_x1_red)"
    by (simp add: bmw_m5_red_def bmw_x1_red_def)
  from t ne sep have keys: "GetKey bmw_m5_red \<noteq> GetKey bmw_x1_red" by blast
  have "GetKey ` set ?reqs - fst ` set (flyweights ?f0) = {GetKey bmw_m5_red, GetKey bmw_x1_red}"
    by (auto simp: FlyweightFactory_ctor_def)
  then have n: "count ?f0 + card (GetKey ` set ?reqs - fst ` set (flyweights ?f0)) = 2"
    using keys by (simp add: FlyweightFactory_ctor_def count_def um_size_def)
  from t obtain f' out' where "GetFlyweights ?reqs (?f0, '''') = Inr (f', out')"
    and "count f' = count ?f0 + card (GetKey ` set ?reqs - fst ` set (flyweights ?f0))"
    by blast
  with n have "\<exists>f' out'. GetFlyweights ?reqs (?f0, '''') = Inr (f', out') \<and> count f' = 2"
    by auto
  with ne sep keys show ?thesis by blast
qed

text \<open>
  Claim C7. In every registry that a construction and a sequence of requests produce,
  the count is the number of entries stored, which are as many as the distinct keys;
  the count never decreases and no entry is ever removed, neither while the
  constructor populates the registry nor from one request to the next.
\<close>

theorem count_monotone:
  "\<exists>f1 out1 f2 out2.
      GetFlyweights reqs1 (FlyweightFactory_ctor (init1 @ init2), out) = Inr (f1, out1)
    \<and> GetFlyweights (reqs1 @ reqs2) (FlyweightFactory_ctor (init1 @ init2), out) = Inr (f2, out2)
    \<and> count f1 = card (set (flyweights f1))
    \<and> count f1 = card (fst ` set (flyweights f1))
    \<and> count (FlyweightFactory_ctor init1) \<le> count (FlyweightFactory_ctor (init1 @ init2))
    \<and> count (FlyweightFactory_ctor (init1 @ init2)) \<le> count f1
    \<and> count f1 \<le> count f2
    \<and> set (flyweights (FlyweightFactory_ctor init1))
          \<subseteq> set (flyweights (FlyweightFactory_ctor (init1 @ init2)))
    \<and> set (flyweights (FlyweightFactory_ctor (init1 @ init2))) \<subseteq> set (flyweights f1)
    \<and> set (flyweights f1) \<subseteq> set (flyweights f2)"
proof -
  let ?f0 = "FlyweightFactory_ctor (init1 @ init2)"
  obtain f1 out1 where 1: "GetFlyweights reqs1 (?f0, out) = Inr (f1, out1)"
    and c1: "count f1 = count ?f0 + card (GetKey ` set reqs1 - fst ` set (flyweights ?f0))"
    and s1: "set (flyweights ?f0) \<subseteq> set (flyweights f1)"
    and d1: "distinct (map fst (flyweights ?f0)) \<longrightarrow> distinct (map fst (flyweights f1))"
    using GetFlyweights_run[of reqs1 ?f0 out] by blast
  obtain f2 out2 where 2: "GetFlyweights reqs2 (f1, out1) = Inr (f2, out2)"
    and c2: "count f2 = count f1 + card (GetKey ` set reqs2 - fst ` set (flyweights f1))"
    and s2: "set (flyweights f1) \<subseteq> set (flyweights f2)"
    using GetFlyweights_run[of reqs2 f1 out1] by blast
  have 12: "GetFlyweights (reqs1 @ reqs2) (?f0, out) = Inr (f2, out2)"
    using 1 2 by (simp add: GetFlyweights_append)
  have d: "distinct (map fst (flyweights f1))"
    using d1 ctor_distinct by blast
  have n1: "count f1 = card (set (flyweights f1))"
    using d by (simp add: count_def um_size_def distinct_keys_entries)
  have n2: "count f1 = card (fst ` set (flyweights f1))"
    using d by (simp add: count_def um_size_def distinct_keys_length)
  have p: "?f0 = populate init2 (FlyweightFactory_ctor init1)"
    by (simp add: FlyweightFactory_ctor_def populate_append)
  have m0: "count (FlyweightFactory_ctor init1) \<le> count ?f0"
    unfolding p by (rule populate_count)
  have s0: "set (flyweights (FlyweightFactory_ctor init1)) \<subseteq> set (flyweights ?f0)"
    unfolding p by (rule populate_mono)
  have m1: "count ?f0 \<le> count f1" using c1 by simp
  have m2: "count f1 \<le> count f2" using c2 by simp
  show ?thesis
    using 1 12 n1 n2 m0 m1 m2 s0 s1 s2 by blast
qed

theorem count_monotone_witness:
  "\<exists>f1 out1 f2 out2.
      GetFlyweights [bmw_m5_red] (FlyweightFactory_ctor ([bmw_m5_red] @ [bmw_m5_red]), '''')
        = Inr (f1, out1)
    \<and> GetFlyweights ([bmw_m5_red] @ [bmw_x1_red])
         (FlyweightFactory_ctor ([bmw_m5_red] @ [bmw_m5_red]), '''') = Inr (f2, out2)
    \<and> count f1 = 1 \<and> count f2 = 2 \<and> count f1 \<le> count f2"
  using count_monotone[of "[bmw_m5_red]" "[bmw_m5_red]" "[bmw_m5_red]" "''''" "[bmw_x1_red]"]
  by (simp add: FlyweightFactory_ctor_def GetFlyweight.simps bmw_m5_red_def bmw_x1_red_def
      GetKey_def um_find_def um_insert_def um_at_def um_size_def count_def Flyweight_ctor_def)

text \<open>
  Claim C10. Every entry of the registry is stored under the key computed from the
  state that its flyweight holds: the constructor establishes this, every request
  preserves it (and returns), and so it holds after any construction followed by any
  sequence of requests.
\<close>

theorem registry_key_consistent:
  "key_consistent (FlyweightFactory_ctor init)
   \<and> (key_consistent f \<longrightarrow>
        (\<exists>fw f' out'. GetFlyweight ss (f, out) = Inr (fw, f', out') \<and> key_consistent f'))
   \<and> (\<exists>f' out'. GetFlyweights reqs (FlyweightFactory_ctor init, out) = Inr (f', out')
         \<and> key_consistent f')"
proof (intro conjI impI)
  show "key_consistent (FlyweightFactory_ctor init)" by (rule ctor_consistent)
next
  assume kc: "key_consistent f"
  obtain f' out' where "GetFlyweights [ss] (f, out) = Inr (f', out')" and "key_consistent f'"
    using GetFlyweights_run[of "[ss]" f out] kc by blast
  then show "\<exists>fw f' out'. GetFlyweight ss (f, out) = Inr (fw, f', out') \<and> key_consistent f'"
    by (cases "GetFlyweight ss (f, out)") auto
next
  show "\<exists>f' out'. GetFlyweights reqs (FlyweightFactory_ctor init, out) = Inr (f', out')
         \<and> key_consistent f'"
    using GetFlyweights_run[of reqs "FlyweightFactory_ctor init" out] ctor_consistent by blast
qed

theorem registry_key_consistent_witness:
  "key_consistent factory_1
   \<and> \<not> key_consistent \<lparr>flyweights = [(''BMW_M5_red'', \<lparr>shared_state = bmw_x1_red\<rparr>)]\<rparr>
   \<and> key_consistent (FlyweightFactory_ctor [bmw_m5_red, bmw_x1_red])
   \<and> (\<exists>fw f' out'. GetFlyweight bmw_x1_red (factory_1, '''') = Inr (fw, f', out')
         \<and> key_consistent f')"
  using registry_key_consistent[of "[bmw_m5_red, bmw_x1_red]" factory_1 bmw_x1_red "''''" "[]"]
  by (simp add: key_consistent_def factory_1_def bmw_m5_red_def bmw_x1_red_def GetKey_def)

section \<open>Observer: properties of subjects and observers\<close>

subsection \<open>The list of observers\<close>

lemma list_remove_filter: "list_remove v xs = filter (\<lambda>x. x \<noteq> v) xs"
  by (induction xs) auto

lemma filter_once_remove1:
  "count_list xs v \<le> 1 \<Longrightarrow> filter (\<lambda>x. x \<noteq> v) xs = remove1 v xs"
proof (induction xs)
  case Nil
  show ?case by simp
next
  case (Cons x xs)
  show ?case
  proof (cases "x = v")
    case True
    with Cons.prems have "count_list xs v = 0" by simp
    then have "v \<notin> set xs" by (simp add: count_list_0_iff)
    then have "filter (\<lambda>x. x \<noteq> v) xs = xs" by (induction xs) auto
    with True show ?thesis by simp
  next
    case False
    with Cons show ?thesis by simp
  qed
qed

lemma fold_Attach: "list_observer (fold Attach ps sub) = list_observer sub @ ps"
  by (induction ps arbitrary: sub) (simp_all add: Attach_def push_back_def)

subsection \<open>One pass of \<^verbatim>\<open>Notify\<close>\<close>

lemma PrintInfo_append: "PrintInfo obs out = out @ PrintInfo obs ''''"
  by (simp add: PrintInfo_def)

lemma Update_eq:
  "Update msg obs out =
     (obs\<lparr>message_from_subject := msg\<rparr>, PrintInfo (obs\<lparr>message_from_subject := msg\<rparr>) out)"
  by (simp add: Update_def Let_def)

lemma received_attached:
  "p \<in> set ps \<Longrightarrow> h p = Some obs \<Longrightarrow>
   received msg ps h p = Some (obs\<lparr>message_from_subject := msg\<rparr>)"
  by (simp add: received_def)

lemma received_other: "p \<notin> set ps \<Longrightarrow> received msg ps h p = h p"
  by (simp add: received_def)

text \<open>
  When every address of the list holds an observer, the loop returns: it has printed
  one line per entry of the list, in the order of the list, and has stored the message in
  the observers of the list and in no other.
\<close>

lemma notify_loop_effect:
  "map h ps = map Some obss \<Longrightarrow>
   notify_loop ps msg (h, out) =
     Inr (received msg ps h,
          out @ concat (map (\<lambda>obs. PrintInfo (obs\<lparr>message_from_subject := msg\<rparr>) '''') obss))"
proof (induction ps arbitrary: h out obss)
  case Nil
  then show ?case by (simp add: received_def)
next
  case (Cons p ps)
  from Cons.prems obtain obs rest where obss: "obss = obs # rest"
    and hp: "h p = Some obs" and hps: "map h ps = map Some rest"
    by (cases obss) auto
  let ?obs' = "obs\<lparr>message_from_subject := msg\<rparr>"
  let ?h1 = "h(p \<mapsto> ?obs')"
  let ?rest' = "map (\<lambda>(q, ob). if q = p then ?obs' else ob) (zip ps rest)"
  have len: "length ps = length rest"
    using hps by (metis length_map)
  have m1: "map ?h1 ps = map Some ?rest'"
    using hps len
  proof (induction ps arbitrary: rest)
    case Nil
    then show ?case by simp
  next
    case (Cons q qs)
    then show ?case by (cases rest) auto
  qed
  have same: "map (\<lambda>obs. PrintInfo (obs\<lparr>message_from_subject := msg\<rparr>) '''') ?rest'
      = map (\<lambda>obs. PrintInfo (obs\<lparr>message_from_subject := msg\<rparr>) '''') rest"
    using hps len hp
  proof (induction ps arbitrary: rest)
    case Nil
    then show ?case by simp
  next
    case (Cons q qs)
    then show ?case by (cases rest) auto
  qed
  have rec: "received msg ps ?h1 = received msg (p # ps) h"
    by (rule ext) (simp add: received_def hp)
  have "notify_loop (p # ps) msg (h, out) = notify_loop ps msg (?h1, PrintInfo ?obs' out)"
    by (simp add: hp Update_eq)
  also have "\<dots> = Inr (received msg ps ?h1,
      PrintInfo ?obs' out @ concat (map (\<lambda>obs. PrintInfo (obs\<lparr>message_from_subject := msg\<rparr>) '''') ?rest'))"
    by (rule Cons.IH[OF m1])
  finally show ?case
    unfolding same rec obss using PrintInfo_append[of ?obs' out] by simp
qed

lemma Notify_effect:
  "map h (list_observer sub) = map Some obss \<Longrightarrow>
   Notify sub (h, out) =
     Inr (received (message sub) (list_observer sub) h,
          HowManyObservers sub out
            @ concat (map (\<lambda>obs. PrintInfo (obs\<lparr>message_from_subject := message sub\<rparr>) '''') obss))"
  by (simp add: Notify_def notify_loop_effect)

text \<open>The calls of a pass: one per entry of the list, in order.\<close>

lemma notify_loop_calls_live:
  "\<forall>p \<in> set ps. h p \<noteq> None \<Longrightarrow>
   notify_loop_calls ps msg (h, out) = Inr (map (\<lambda>p. (p, msg)) ps)"
proof (induction ps arbitrary: h out)
  case Nil
  show ?case by simp
next
  case (Cons p ps)
  from Cons.prems obtain obs where hp: "h p = Some obs" by auto
  let ?h1 = "h(p \<mapsto> obs\<lparr>message_from_subject := msg\<rparr>)"
  have "\<forall>q \<in> set ps. ?h1 q \<noteq> None" using Cons.prems by auto
  from Cons.IH[OF this]
  have "notify_loop_calls ps msg (?h1, PrintInfo (obs\<lparr>message_from_subject := msg\<rparr>) out)
      = Inr (map (\<lambda>p. (p, msg)) ps)" .
  then show ?case using hp by (simp add: Update_eq)
qed

lemma live_entries: "map h ps = map Some obss \<Longrightarrow> \<forall>p \<in> set ps. h p \<noteq> None"
proof (induction ps arbitrary: obss)
  case Nil
  show ?case by simp
next
  case (Cons p ps)
  then show ?case by (cases obss) auto
qed

lemma Notify_calls_live:
  "map h (list_observer sub) = map Some obss \<Longrightarrow>
   Notify_calls sub (h, out) = Inr (map (\<lambda>p. (p, message sub)) (list_observer sub))"
  by (simp add: Notify_calls_def notify_loop_calls_live live_entries)

lemma count_list_once: "distinct xs \<Longrightarrow> p \<in> set xs \<Longrightarrow> count_list xs p = 1"
  by (induction xs) (auto simp: count_list_0_iff)

lemma map_fst_calls: "map fst (map (\<lambda>p. (p, m)) ps) = ps"
  by (induction ps) auto

text \<open>A pointer in the list to an observer that does not exist makes the pass a fault.\<close>

lemma notify_loop_fault:
  "\<exists>p \<in> set ps. h p = None \<Longrightarrow> notify_loop ps msg (h, out) = Inl dangling_pointer"
proof (induction ps arbitrary: h out)
  case Nil
  then show ?case by simp
next
  case (Cons p ps)
  show ?case
  proof (cases "h p")
    case None
    then show ?thesis by simp
  next
    case (Some obs)
    from Cons.prems obtain q where q: "q \<in> set (p # ps)" "h q = None" by blast
    with Some have "q \<in> set ps" "q \<noteq> p" by auto
    with q have "\<exists>q \<in> set ps. (h(p \<mapsto> obs\<lparr>message_from_subject := msg\<rparr>)) q = None"
      by auto
    then have "notify_loop ps msg (h(p \<mapsto> obs\<lparr>message_from_subject := msg\<rparr>),
        PrintInfo (obs\<lparr>message_from_subject := msg\<rparr>) out) = Inl dangling_pointer"
      by (rule Cons.IH)
    then show ?thesis using Some by (simp add: Update_eq)
  qed
qed



subsection \<open>The run of \<^verbatim>\<open>ClientCode\<close>\<close>

text \<open>The model of \<^verbatim>\<open>ClientCode\<close> prints the output that the source file lists.\<close>

lemma ClientCode_prints:
  "map_sum id cout (run ClientCode initial_world) = Inr ClientCode_output"
  by code_simp

subsection \<open>The claims about the subject\<close>

text \<open>
  \<^verbatim>\<open>Detach\<close> calls \<^verbatim>\<open>std::list::remove\<close>, which erases every matching element. An
  observer attached twice is removed twice by one \<^verbatim>\<open>Detach\<close>, where the removal of the
  first matching entry alone would leave the second.
\<close>

theorem detach_first_only_counterexample:
  "list_observer (Attach 7 (Attach 8 (Attach 7 subject_empty))) = [7, 8, 7]
   \<and> list_observer (Detach 7 (Attach 7 (Attach 8 (Attach 7 subject_empty)))) = [8]
   \<and> remove1 7 [7, 8, 7 :: addr] = [8, 7]"
  by (simp add: Attach_def Detach_def push_back_def subject_empty_def)

text \<open>
  Claim C3, amended. \<^verbatim>\<open>Detach\<close> removes every entry of the observer and keeps the other
  entries in their order and the message as it is; when the observer is attached at most
  once this is the removal of its first entry; when the observer is not attached the
  subject is unchanged; a second \<^verbatim>\<open>Detach\<close> of the same observer changes nothing, so the
  size stays what it was; and the call on an existing subject always returns, whatever
  the observer pointer is.
\<close>

theorem detach_semantics:
  "observer \<notin> set (list_observer (Detach observer sub))
   \<and> list_observer (Detach observer sub) = filter (\<lambda>q. q \<noteq> observer) (list_observer sub)
   \<and> message (Detach observer sub) = message sub
   \<and> (count_list (list_observer sub) observer \<le> 1 \<longrightarrow>
        list_observer (Detach observer sub) = remove1 observer (list_observer sub))
   \<and> (observer \<notin> set (list_observer sub) \<longrightarrow> Detach observer sub = sub)
   \<and> Detach observer (Detach observer sub) = Detach observer sub
   \<and> length (list_observer (Detach observer (Detach observer sub)))
       = length (list_observer (Detach observer sub))
   \<and> (subjects w s = Some sub \<longrightarrow>
        exec (call_Detach s observer) w
          = Inr (w\<lparr>subjects := (subjects w)(s \<mapsto> Detach observer sub)\<rparr>))"
proof -
  have f: "list_observer (Detach observer sub) = filter (\<lambda>q. q \<noteq> observer) (list_observer sub)"
    by (simp add: Detach_def list_remove_filter)
  have once: "count_list (list_observer sub) observer \<le> 1 \<longrightarrow>
        list_observer (Detach observer sub) = remove1 observer (list_observer sub)"
    using f filter_once_remove1[of "list_observer sub" observer] by simp
  have absent: "observer \<notin> set (list_observer sub) \<longrightarrow> Detach observer sub = sub"
  proof
    assume "observer \<notin> set (list_observer sub)"
    then have "filter (\<lambda>q. q \<noteq> observer) (list_observer sub) = list_observer sub"
      by (induction "list_observer sub") (auto simp: filter_id_conv)
    then show "Detach observer sub = sub"
      by (simp add: Detach_def list_remove_filter)
  qed
  have twice: "Detach observer (Detach observer sub) = Detach observer sub"
    by (simp add: Detach_def list_remove_filter)
  have returns: "subjects w s = Some sub \<longrightarrow>
        exec (call_Detach s observer) w
          = Inr (w\<lparr>subjects := (subjects w)(s \<mapsto> Detach observer sub)\<rparr>)"
    by simp
  show ?thesis
    using f once absent twice returns by (simp add: Detach_def)
qed

theorem detach_semantics_witness:
  "count_list (list_observer subject_12) 2 \<le> 1
   \<and> list_observer (Detach 2 subject_12) = [1]
   \<and> 3 \<notin> set (list_observer subject_12)
   \<and> Detach 3 subject_12 = subject_12
   \<and> length (list_observer (Detach 2 (Detach 2 subject_12))) = 1
   \<and> subjects world_1 0 = Some \<lparr>list_observer = [1], message = ''''\<rparr>
   \<and> exec (call_Detach 0 5) world_1 = Inr world_1"
  using detach_semantics[of 2 subject_12 world_1 0]
    detach_semantics[of 3 subject_12 world_1 0]
    detach_semantics[of 5 "\<lparr>list_observer = [1], message = ''''\<rparr>" world_1 0]
  by (simp add: subject_12_def world_1_def)

text \<open>
  \<^verbatim>\<open>Notify\<close> calls \<^verbatim>\<open>HowManyObservers\<close> before its loop, so it prints the size of the
  list also when the list is empty.
\<close>

theorem notify_empty_counterexample:
  "Notify subject_empty (no_observers, '''')
     = Inr (no_observers, ''There are 0 observers in the list.\<newline>'')
   \<and> Notify subject_empty (no_observers, '''') \<noteq> Inr (no_observers, '''')"
  by (simp add: Notify_def subject_empty_def HowManyObservers_def show_nat.simps digit_char_def)

text \<open>
  Claim C4, amended. When the list of the subject is empty, \<^verbatim>\<open>Notify\<close> returns, calls
  no \<^verbatim>\<open>Update\<close> (the store of observers is unchanged) and prints exactly the line
  "There are 0 observers in the list.".
\<close>

theorem notify_empty:
  assumes "list_observer sub = []"
  shows "Notify sub (h, out) = Inr (h, out @ ''There are 0 observers in the list.\<newline>'')"
  using assms
  by (simp add: Notify_def HowManyObservers_def show_nat.simps digit_char_def)

theorem notify_empty_witness:
  "list_observer subject_empty = []
   \<and> Notify subject_empty (heap_12, ''Hi'')
       = Inr (heap_12, ''HiThere are 0 observers in the list.\<newline>'')"
  using notify_empty[of subject_empty heap_12 "''Hi''"]
  by (simp add: subject_empty_def)

text \<open>
  \<^verbatim>\<open>Attach\<close> does not look for the observer in the list, so an observer can have two
  entries without any detachment. A pass of \<^verbatim>\<open>Notify\<close> then calls its \<^verbatim>\<open>Update\<close> twice.
\<close>

theorem notify_duplicate_counterexample:
  \<open>list_observer (Attach 1 (Attach 2 (Attach 1 subject_empty))) = list_observer subject_121
   \<and> Notify_calls subject_121 (heap_12, '''')
       = Inr [(1, ''Hello''), (2, ''Hello''), (1, ''Hello'')]
   \<and> map_sum id snd (Notify subject_121 (heap_12, ''''))
       = Inr (''There are 3 observers in the list.\<newline>''
              @ ''Observer "1" a new message is available --> Hello\<newline>''
              @ ''Observer "2" a new message is available --> Hello\<newline>''
              @ ''Observer "1" a new message is available --> Hello\<newline>'')\<close>
  by (simp add: Attach_def push_back_def subject_empty_def subject_121_def
      Notify_calls_def Notify_def Update_eq heap_12_def observer_1_def observer_2_def
      HowManyObservers_def PrintInfo_def show_int_def show_nat.simps digit_char_def)

text \<open>
  Claim C6, amended. \<^verbatim>\<open>Attach\<close> appends, so the list is in attachment order. When every
  entry of the list points to an existing observer (\<open>obss\<close> are the observers of the
  entries, in order), \<^verbatim>\<open>Notify\<close> returns; it calls \<^verbatim>\<open>Update\<close> with the current message
  once for each entry of the list, in the order of the list, so an observer is called as
  many times as it is attached, and exactly once when no observer is attached twice;
  after the line of \<^verbatim>\<open>HowManyObservers\<close> the output is the line of one \<^verbatim>\<open>Update\<close> per
  entry; every attached observer holds the current message afterwards, and the observers
  that are not attached are unchanged.
\<close>

theorem notify_order:
  "list_observer (fold Attach ps sub0) = list_observer sub0 @ ps
   \<and> (map h (list_observer sub) = map Some obss \<longrightarrow>
       (\<exists>h'. Notify sub (h, out) =
            Inr (h', HowManyObservers sub out
                       @ concat (map (\<lambda>obs. PrintInfo (obs\<lparr>message_from_subject := message sub\<rparr>) '''')
                                     obss))
          \<and> (\<forall>p obs. p \<in> set (list_observer sub) \<and> h p = Some obs \<longrightarrow>
                 h' p = Some (obs\<lparr>message_from_subject := message sub\<rparr>))
          \<and> (\<forall>p. p \<notin> set (list_observer sub) \<longrightarrow> h' p = h p))
       \<and> (\<exists>calls. Notify_calls sub (h, out) = Inr calls
          \<and> calls = map (\<lambda>p. (p, message sub)) (list_observer sub)
          \<and> (\<forall>p. count_list (map fst calls) p = count_list (list_observer sub) p)
          \<and> (distinct (list_observer sub) \<longrightarrow>
                (\<forall>p. p \<in> set (list_observer sub) \<longrightarrow> count_list (map fst calls) p = 1))))"
proof (intro conjI impI)
  show "list_observer (fold Attach ps sub0) = list_observer sub0 @ ps"
    by (rule fold_Attach)
next
  assume live: "map h (list_observer sub) = map Some obss"
  show "\<exists>h'. Notify sub (h, out) =
            Inr (h', HowManyObservers sub out
                       @ concat (map (\<lambda>obs. PrintInfo (obs\<lparr>message_from_subject := message sub\<rparr>) '''')
                                     obss))
          \<and> (\<forall>p obs. p \<in> set (list_observer sub) \<and> h p = Some obs \<longrightarrow>
                 h' p = Some (obs\<lparr>message_from_subject := message sub\<rparr>))
          \<and> (\<forall>p. p \<notin> set (list_observer sub) \<longrightarrow> h' p = h p)"
    using Notify_effect[OF live, of out] received_attached received_other
    by auto
next
  assume live: "map h (list_observer sub) = map Some obss"
  let ?calls = "map (\<lambda>p. (p, message sub)) (list_observer sub)"
  have c: "Notify_calls sub (h, out) = Inr ?calls"
    using live by (rule Notify_calls_live)
  have f: "map fst ?calls = list_observer sub"
    by (rule map_fst_calls)
  have cnt: "\<forall>p. count_list (map fst ?calls) p = count_list (list_observer sub) p"
    unfolding f by simp
  have once: "distinct (list_observer sub) \<longrightarrow>
      (\<forall>p. p \<in> set (list_observer sub) \<longrightarrow> count_list (map fst ?calls) p = 1)"
  proof (intro impI allI)
    fix p
    assume "distinct (list_observer sub)" and "p \<in> set (list_observer sub)"
    then have "count_list (list_observer sub) p = 1" by (rule count_list_once)
    then show "count_list (map fst ?calls) p = 1" by (simp only: f)
  qed
  show "\<exists>calls. Notify_calls sub (h, out) = Inr calls
          \<and> calls = map (\<lambda>p. (p, message sub)) (list_observer sub)
          \<and> (\<forall>p. count_list (map fst calls) p = count_list (list_observer sub) p)
          \<and> (distinct (list_observer sub) \<longrightarrow>
                (\<forall>p. p \<in> set (list_observer sub) \<longrightarrow> count_list (map fst calls) p = 1))"
  proof (intro exI[of _ ?calls] conjI)
    show "Notify_calls sub (h, out) = Inr ?calls" by (rule c)
    show "?calls = map (\<lambda>p. (p, message sub)) (list_observer sub)" by (rule refl)
    show "\<forall>p. count_list (map fst ?calls) p = count_list (list_observer sub) p" by (rule cnt)
    show "distinct (list_observer sub) \<longrightarrow>
      (\<forall>p. p \<in> set (list_observer sub) \<longrightarrow> count_list (map fst ?calls) p = 1)" by (rule once)
  qed
qed

theorem notify_order_witness:
  \<open>list_observer (fold Attach [1, 2] subject_empty) = list_observer subject_12
   \<and> map heap_12 (list_observer subject_12) = map Some [observer_1, observer_2]
   \<and> distinct (list_observer subject_12)
   \<and> 1 \<in> set (list_observer subject_12)
   \<and> (\<exists>h'. Notify subject_12 (heap_12, '''') =
            Inr (h', ''There are 2 observers in the list.\<newline>''
                     @ ''Observer "1" a new message is available --> Hello\<newline>''
                     @ ''Observer "2" a new message is available --> Hello\<newline>'')
          \<and> h' 1 = Some (observer_1\<lparr>message_from_subject := ''Hello''\<rparr>)
          \<and> h' 2 = Some (observer_2\<lparr>message_from_subject := ''Hello''\<rparr>)
          \<and> h' 3 = None)
   \<and> (\<exists>calls. Notify_calls subject_12 (heap_12, '''') = Inr calls
          \<and> calls = [(1, ''Hello''), (2, ''Hello'')]
          \<and> count_list (map fst calls) 1 = 1)\<close>
proof -
  note t = notify_order[of "[1, 2]" subject_empty heap_12 subject_12 "[observer_1, observer_2]" "''''"]
  have att: "list_observer (fold Attach [1, 2] subject_empty) = list_observer subject_12"
    using t by (simp add: subject_empty_def subject_12_def)
  have live: "map heap_12 (list_observer subject_12) = map Some [observer_1, observer_2]"
    by (simp add: subject_12_def heap_12_def)
  have d: "distinct (list_observer subject_12)" and m: "1 \<in> set (list_observer subject_12)"
    by (simp_all add: subject_12_def)
  from t live obtain h' where
    n: "Notify subject_12 (heap_12, '''') =
          Inr (h', HowManyObservers subject_12 ''''
                 @ concat (map (\<lambda>obs. PrintInfo (obs\<lparr>message_from_subject := message subject_12\<rparr>) '''')
                     [observer_1, observer_2]))"
    and a: "\<And>p obs. p \<in> set (list_observer subject_12) \<Longrightarrow> heap_12 p = Some obs \<Longrightarrow>
              h' p = Some (obs\<lparr>message_from_subject := message subject_12\<rparr>)"
    and b: "\<And>p. p \<notin> set (list_observer subject_12) \<Longrightarrow> h' p = heap_12 p"
    by blast
  from t live d obtain calls where
    c: "Notify_calls subject_12 (heap_12, '''') = Inr calls"
    and ce: "calls = map (\<lambda>p. (p, message subject_12)) (list_observer subject_12)"
    and c1: "\<And>p. p \<in> set (list_observer subject_12) \<Longrightarrow> count_list (map fst calls) p = 1"
    by blast
  have ce': "calls = [(1, ''Hello''), (2, ''Hello'')]"
    using ce by (simp add: subject_12_def)
  have 1: "h' 1 = Some (observer_1\<lparr>message_from_subject := ''Hello''\<rparr>)"
    using a[of 1 observer_1] by (simp add: subject_12_def heap_12_def)
  have 2: "h' 2 = Some (observer_2\<lparr>message_from_subject := ''Hello''\<rparr>)"
    using a[of 2 observer_2] by (simp add: subject_12_def heap_12_def)
  have 3: "h' 3 = None"
    using b[of 3] by (simp add: subject_12_def heap_12_def)
  have out: \<open>HowManyObservers subject_12 ''''
                 @ concat (map (\<lambda>obs. PrintInfo (obs\<lparr>message_from_subject := message subject_12\<rparr>) '''')
                     [observer_1, observer_2])
       = ''There are 2 observers in the list.\<newline>''
                     @ ''Observer "1" a new message is available --> Hello\<newline>''
                     @ ''Observer "2" a new message is available --> Hello\<newline>''\<close>
    by (simp add: subject_12_def observer_1_def observer_2_def HowManyObservers_def
        PrintInfo_def show_int_def show_nat.simps digit_char_def)
  have A: \<open>\<exists>h'. Notify subject_12 (heap_12, '''') =
            Inr (h', ''There are 2 observers in the list.\<newline>''
                     @ ''Observer "1" a new message is available --> Hello\<newline>''
                     @ ''Observer "2" a new message is available --> Hello\<newline>'')
          \<and> h' 1 = Some (observer_1\<lparr>message_from_subject := ''Hello''\<rparr>)
          \<and> h' 2 = Some (observer_2\<lparr>message_from_subject := ''Hello''\<rparr>)
          \<and> h' 3 = None\<close>
    using n 1 2 3 unfolding out by blast
  have B: "\<exists>calls. Notify_calls subject_12 (heap_12, '''') = Inr calls
          \<and> calls = [(1, ''Hello''), (2, ''Hello'')]
          \<and> count_list (map fst calls) 1 = 1"
    using c ce' c1[OF m] by blast
  show ?thesis
    using att live d m A B by blast
qed

text \<open>
  Claim C9. \<^verbatim>\<open>CreateMessage\<close> without an argument is \<^verbatim>\<open>CreateMessage("Empty")\<close>: when
  every entry of the list points to an existing observer it returns, the message of the
  subject is "Empty" afterwards, the output is the pass of \<^verbatim>\<open>Notify\<close> with the message
  "Empty", and every attached observer holds "Empty".
\<close>

theorem default_message:
  "CreateMessage None sub st = CreateMessage (Some ''Empty'') sub st
   \<and> (map h (list_observer sub) = map Some obss \<longrightarrow>
        (\<exists>h'. CreateMessage None sub (h, out) =
            Inr (sub\<lparr>message := ''Empty''\<rparr>, h',
                 HowManyObservers sub out
                   @ concat (map (\<lambda>obs. PrintInfo (obs\<lparr>message_from_subject := ''Empty''\<rparr>) '''')
                                 obss))
          \<and> (\<forall>p obs. p \<in> set (list_observer sub) \<and> h p = Some obs \<longrightarrow>
                 h' p = Some (obs\<lparr>message_from_subject := ''Empty''\<rparr>))))"
proof (intro conjI impI)
  show "CreateMessage None sub st = CreateMessage (Some ''Empty'') sub st"
    by (simp add: CreateMessage_def)
next
  assume live: "map h (list_observer sub) = map Some obss"
  let ?sub' = "sub\<lparr>message := ''Empty''\<rparr>"
  have "map h (list_observer ?sub') = map Some obss" using live by simp
  from Notify_effect[OF this, of out]
  have "CreateMessage None sub (h, out) =
      Inr (?sub', received ''Empty'' (list_observer sub) h,
           HowManyObservers sub out
             @ concat (map (\<lambda>obs. PrintInfo (obs\<lparr>message_from_subject := ''Empty''\<rparr>) '''') obss))"
    by (simp add: CreateMessage_def HowManyObservers_def)
  then show "\<exists>h'. CreateMessage None sub (h, out) =
            Inr (sub\<lparr>message := ''Empty''\<rparr>, h',
                 HowManyObservers sub out
                   @ concat (map (\<lambda>obs. PrintInfo (obs\<lparr>message_from_subject := ''Empty''\<rparr>) '''')
                                 obss))
          \<and> (\<forall>p obs. p \<in> set (list_observer sub) \<and> h p = Some obs \<longrightarrow>
                 h' p = Some (obs\<lparr>message_from_subject := ''Empty''\<rparr>))"
    using received_attached by auto
qed

theorem default_message_witness:
  \<open>map heap_12 (list_observer subject_12) = map Some [observer_1, observer_2]
   \<and> (\<exists>h'. CreateMessage None subject_12 (heap_12, '''') =
            Inr (subject_12\<lparr>message := ''Empty''\<rparr>, h',
                 ''There are 2 observers in the list.\<newline>''
                     @ ''Observer "1" a new message is available --> Empty\<newline>''
                     @ ''Observer "2" a new message is available --> Empty\<newline>'')
          \<and> h' 1 = Some (observer_1\<lparr>message_from_subject := ''Empty''\<rparr>)
          \<and> h' 2 = Some (observer_2\<lparr>message_from_subject := ''Empty''\<rparr>))\<close>
proof -
  have live: "map heap_12 (list_observer subject_12) = map Some [observer_1, observer_2]"
    by (simp add: subject_12_def heap_12_def)
  from default_message[of subject_12 "(heap_12, '''')" heap_12 "[observer_1, observer_2]" "''''"]
    live
  obtain h' where
    n: "CreateMessage None subject_12 (heap_12, '''') =
          Inr (subject_12\<lparr>message := ''Empty''\<rparr>, h',
               HowManyObservers subject_12 ''''
                 @ concat (map (\<lambda>obs. PrintInfo (obs\<lparr>message_from_subject := ''Empty''\<rparr>) '''')
                     [observer_1, observer_2]))"
    and a: "\<And>p obs. p \<in> set (list_observer subject_12) \<Longrightarrow> heap_12 p = Some obs \<Longrightarrow>
              h' p = Some (obs\<lparr>message_from_subject := ''Empty''\<rparr>)"
    by blast
  have 1: "h' 1 = Some (observer_1\<lparr>message_from_subject := ''Empty''\<rparr>)"
    using a[of 1 observer_1] by (simp add: subject_12_def heap_12_def)
  have 2: "h' 2 = Some (observer_2\<lparr>message_from_subject := ''Empty''\<rparr>)"
    using a[of 2 observer_2] by (simp add: subject_12_def heap_12_def)
  have out: \<open>HowManyObservers subject_12 ''''
                 @ concat (map (\<lambda>obs. PrintInfo (obs\<lparr>message_from_subject := ''Empty''\<rparr>) '''')
                     [observer_1, observer_2])
       = ''There are 2 observers in the list.\<newline>''
                     @ ''Observer "1" a new message is available --> Empty\<newline>''
                     @ ''Observer "2" a new message is available --> Empty\<newline>''\<close>
    by (simp add: subject_12_def observer_1_def observer_2_def HowManyObservers_def
        PrintInfo_def show_int_def show_nat.simps digit_char_def)
  show ?thesis
    using live n 1 2 unfolding out by blast
qed

subsection \<open>The counter and the numbers of the observers\<close>


















end
